theory Spec2Isabelle
  imports Main "HOL-Library.Word"
begin

section \<open>Data model of xact.py\<close>

text \<open>
  A Python \<open>str\<close> value is the list of its code points; a \<open>bytes\<close> value is a list of
  8-bit words. Dictionary keys that the source writes as literals are HOL strings.
  Python integers are unbounded, hence \<open>int\<close>.
\<close>

type_synonym pystr = "nat list"
type_synonym bytes = "8 word list"

text \<open>The values handed to \<open>json.dumps\<close>; a dict is an association list in insertion order.\<close>

datatype json =
    JNull
  | JBool bool
  | JInt int
  | JStr pystr
  | JList "json list"
  | JObj "(string \<times> json) list"

text \<open>
  The code points of the strings in a value. With \<open>ensure_ascii=False\<close> they are the code
  points that \<open>json.dumps\<close> puts into its text unescaped; the keys are literals of the
  source (and HOL characters are below 256), so no key adds a surrogate.
\<close>

fun json_code_points :: "json \<Rightarrow> nat list" where
  "json_code_points JNull = []"
| "json_code_points (JBool b) = []"
| "json_code_points (JInt n) = []"
| "json_code_points (JStr t) = t"
| "json_code_points (JList xs) = concat (map json_code_points xs)"
| "json_code_points (JObj kvs) = concat (map (\<lambda>kv. json_code_points (snd kv)) kvs)"

definition surrogate :: "nat \<Rightarrow> bool" where
  "surrogate cp = (0xD800 \<le> cp \<and> cp \<le> 0xDFFF)"

text \<open>
  Standard output is a text stream in UTF-8 with strict error handling: a text is written
  when it holds no surrogate, and otherwise \<open>write\<close> raises and writes nothing.
\<close>

definition encodable :: "json \<Rightarrow> bool" where
  "encodable d = list_all (\<lambda>cp. \<not> surrogate cp) (json_code_points d)"

text \<open>
  One line written by \<open>log\<close>. The line also carries the wall-clock \<open>time\<close> and the
  constant tag \<open>v = a\<close>; neither depends on the program state and neither is modelled.
\<close>

record logline =
  event :: string
  data :: json

datatype error = BadWindow | TypeError | NoSuchProcess | UnicodeDecodeError | UnicodeEncodeError

text \<open>A window handle is the X resource id; \<open>None\<close> is Python's \<open>None\<close>.\<close>

type_synonym window = int

datatype event_mask = NoEventMask | PropertyChangeMask

text \<open>The dict built by \<open>window_options\<close>, one field per key.\<close>

record details =
  name :: "pystr option"
  wid :: int
  pid :: "int option"
  fullscreen :: bool
  class' :: "pystr option list"

text \<open>
  The state of the program: the fields of \<open>Activity\<close> that the single-threaded logic
  reads and writes, the module-level cache of \<open>cmdline_by_pid\<close> (most recently used
  entry first), the lines written to standard output (oldest first) and the event-mask
  requests sent to the X server (oldest first).
\<close>

record state =
  window_details :: "details option"
  last_window :: "window option"
  input_stat :: "(string \<times> int) list"
  input_flush_interval :: int
  cache :: "(int \<times> pystr list) list"
  stdout :: "logline list"
  xreqs :: "(window \<times> event_mask) list"

text \<open>\<open>Activity.__init__\<close>, with an empty cache and nothing written yet.\<close>

definition init :: state where
  "init = \<lparr> window_details = None, last_window = None, input_stat = [],
            input_flush_interval = 20, cache = [], stdout = [], xreqs = [] \<rparr>"

text \<open>
  \<open>log\<close>: the line is serialised and written; when it cannot be encoded,
  \<open>sys.stdout.write\<close> raises \<open>UnicodeEncodeError\<close> and nothing is written.
\<close>

definition log :: "string \<Rightarrow> json \<Rightarrow> state \<Rightarrow> (error + unit) \<times> state" where
  "log ev d s =
     (if encodable d then (Inr (), s\<lparr> stdout := stdout s @ [\<lparr> event = ev, data = d \<rparr>] \<rparr>)
      else (Inl UnicodeEncodeError, s))"

section \<open>Input aggregator\<close>

text \<open>
  \<open>self.input_stat[key] += 1\<close> on a \<open>defaultdict(int)\<close>: a missing key is created with
  \<open>0\<close> at the end of the dict and then incremented; a present key keeps its position.
\<close>

fun incr :: "string \<Rightarrow> (string \<times> int) list \<Rightarrow> (string \<times> int) list" where
  "incr k [] = [(k, 0 + 1)]"
| "incr k ((k', n) # kvs) = (if k' = k then (k', n + 1) # kvs else (k', n) # incr k kvs)"

definition update_input_stat :: "string \<Rightarrow> state \<Rightarrow> state" where
  "update_input_stat key s = s\<lparr> input_stat := incr key (input_stat s) \<rparr>"

definition stats_json :: "(string \<times> int) list \<Rightarrow> json" where
  "stats_json st = JObj (map (\<lambda>(k, n). (k, JInt n)) st)"

definition flush_input_stat :: "bool \<Rightarrow> state \<Rightarrow> (error + unit) \<times> state" where
  "flush_input_stat timeout s =
     (if input_stat s = [] then (Inr (), s)
      else
        let d = [(''timeout'', JBool timeout), (''stats'', stats_json (input_stat s))];
            d = (if timeout then d @ [(''interval'', JInt (input_flush_interval s))] else d)
        in (case log ''input'' (JObj d) s of
              (Inl e, s') \<Rightarrow> (Inl e, s')
            | (Inr _, s') \<Rightarrow> (Inr (), s'\<lparr> input_stat := [] \<rparr>)))"

definition on_press :: "state \<Rightarrow> state" where
  "on_press = update_input_stat ''press''"

definition on_release :: "state \<Rightarrow> state" where
  "on_release = update_input_stat ''release''"

definition on_move :: "state \<Rightarrow> state" where
  "on_move = update_input_stat ''move''"

definition on_click :: "state \<Rightarrow> state" where
  "on_click = update_input_stat ''click''"

definition on_scroll :: "state \<Rightarrow> state" where
  "on_scroll = update_input_stat ''scroll''"

text \<open>
  A sequential history of calls on the aggregator, run in order; a call that raises ends
  the run.
\<close>

datatype call = Record string | Flush bool

fun run :: "call list \<Rightarrow> state \<Rightarrow> (error + unit) \<times> state" where
  "run [] s = (Inr (), s)"
| "run (Record k # cs) s = run cs (update_input_stat k s)"
| "run (Flush t # cs) s =
     (case flush_input_stat t s of
        (Inl e, s') \<Rightarrow> (Inl e, s')
      | (Inr _, s') \<Rightarrow> run cs s')"

fun is_record :: "call \<Rightarrow> bool" where
  "is_record (Record k) = True"
| "is_record (Flush t) = False"

text \<open>The calls of a history up to and including its last flush.\<close>

definition flushed_prefix :: "call list \<Rightarrow> call list" where
  "flushed_prefix cs = rev (dropWhile is_record (rev cs))"

text \<open>What a line of output reports: the keys of its payload, and the count for a kind.\<close>

definition payload :: "logline \<Rightarrow> (string \<times> json) list" where
  "payload e = (case data e of JObj d \<Rightarrow> d | _ \<Rightarrow> [])"

definition reported :: "string \<Rightarrow> logline \<Rightarrow> int" where
  "reported k e =
     (if event e = ''input'' then
        (case map_of (payload e) ''stats'' of
           Some (JObj st) \<Rightarrow> (case map_of st k of Some (JInt n) \<Rightarrow> n | _ \<Rightarrow> 0)
         | _ \<Rightarrow> 0)
      else 0)"

definition total_reported :: "string \<Rightarrow> logline list \<Rightarrow> int" where
  "total_reported k es = sum_list (map (reported k) es)"

definition stat :: "string \<Rightarrow> (string \<times> int) list \<Rightarrow> int" where
  "stat k st = (case map_of st k of Some n \<Rightarrow> n | None \<Rightarrow> 0)"

text \<open>The lines a computation appended to the output.\<close>

definition new_events :: "state \<Rightarrow> state \<Rightarrow> logline list" where
  "new_events s s' = drop (length (stdout s)) (stdout s')"

section \<open>The collaborators: X server, window manager and process table\<close>

text \<open>
  The answers of the libraries the program calls (\<open>ewmh\<close>, \<open>Xlib\<close>, \<open>psutil\<close>) at one moment.
  Each query either raises (\<open>Inl\<close>) or returns; the queries are independent of each other,
  so a window may answer one query and fail the next.
  \<^item> \<open>getActiveWindow\<close>: the library's \<open>getActiveWindow()\<close>;
  \<^item> \<open>super_getWmPid\<close>, \<open>super_getWmName\<close>: the inherited \<open>getWmPid\<close> and \<open>getWmName\<close>;
  \<^item> \<open>getWmState\<close>: the truth value of the result of the inherited
    \<open>getWmState(win, '_NET_WM_STATE_FULLSCREEN')\<close>;
  \<^item> \<open>getProperty_WM_CLASS\<close>: \<open>_getProperty('WM_CLASS', win)\<close>;
  \<^item> \<open>create_resource_object\<close>: \<open>display.create_resource_object('window', win_id)\<close>;
  \<^item> \<open>process_cmdline\<close>: \<open>psutil.Process(pid).cmdline()\<close>.
\<close>

record xenv =
  getActiveWindow :: "window option"
  super_getWmPid :: "window \<Rightarrow> error + int option"
  super_getWmName :: "window \<Rightarrow> error + bytes option"
  getWmState :: "window \<Rightarrow> error + bool"
  getProperty_WM_CLASS :: "window \<Rightarrow> error + bytes option"
  create_resource_object :: "window \<Rightarrow> error + window"
  process_cmdline :: "int \<Rightarrow> error + pystr list"

section \<open>Byte strings\<close>

text \<open>A continuation byte of UTF-8.\<close>

definition cont :: "8 word \<Rightarrow> bool" where
  "cont b = (0x80 \<le> b \<and> b \<le> 0xBF)"

text \<open>
  \<open>bytes.decode('utf-8')\<close> with strict error handling: the well-formed byte sequences of
  the Unicode standard (no overlong forms, no surrogates, nothing above U+10FFFF);
  \<open>None\<close> stands for \<open>UnicodeDecodeError\<close>.
\<close>

fun utf8_decode :: "bytes \<Rightarrow> pystr option" where
  "utf8_decode [] = Some []"
| "utf8_decode (b0 # bs) =
     (if b0 < 0x80 then map_option ((#) (unat b0)) (utf8_decode bs)
      else if 0xC2 \<le> b0 \<and> b0 \<le> 0xDF then
        (case bs of
           b1 # r \<Rightarrow>
             if cont b1
             then map_option ((#) ((unat b0 - 0xC0) * 64 + (unat b1 - 0x80))) (utf8_decode r)
             else None
         | _ \<Rightarrow> None)
      else if 0xE0 \<le> b0 \<and> b0 \<le> 0xEF then
        (case bs of
           b1 # b2 # r \<Rightarrow>
             if (if b0 = 0xE0 then 0xA0 else 0x80) \<le> b1
                \<and> b1 \<le> (if b0 = 0xED then 0x9F else 0xBF) \<and> cont b2
             then map_option
                    ((#) ((unat b0 - 0xE0) * 4096 + (unat b1 - 0x80) * 64 + (unat b2 - 0x80)))
                    (utf8_decode r)
             else None
         | _ \<Rightarrow> None)
      else if 0xF0 \<le> b0 \<and> b0 \<le> 0xF4 then
        (case bs of
           b1 # b2 # b3 # r \<Rightarrow>
             if (if b0 = 0xF0 then 0x90 else 0x80) \<le> b1
                \<and> b1 \<le> (if b0 = 0xF4 then 0x8F else 0xBF) \<and> cont b2 \<and> cont b3
             then map_option
                    ((#) ((unat b0 - 0xF0) * 262144 + (unat b1 - 0x80) * 4096
                          + (unat b2 - 0x80) * 64 + (unat b3 - 0x80)))
                    (utf8_decode r)
             else None
         | _ \<Rightarrow> None)
      else None)"

text \<open>\<open>value.split(sep)\<close> for a one-byte separator: one more segment than separators.\<close>

fun bytes_split :: "8 word \<Rightarrow> bytes \<Rightarrow> bytes list" where
  "bytes_split sep [] = [[]]"
| "bytes_split sep (b # bs) =
     (if b = sep then [] # bytes_split sep bs
      else (case bytes_split sep bs of
              seg # segs \<Rightarrow> (b # seg) # segs
            | [] \<Rightarrow> [[b]]))"

text \<open>\<open>list(map(f, xs))\<close> for an \<open>f\<close> that may raise: the first exception ends the map.\<close>

fun map_raise :: "('a \<Rightarrow> error + 'b) \<Rightarrow> 'a list \<Rightarrow> error + 'b list" where
  "map_raise f [] = Inr []"
| "map_raise f (x # xs) =
     (case f x of
        Inl e \<Rightarrow> Inl e
      | Inr y \<Rightarrow> (case map_raise f xs of Inl e \<Rightarrow> Inl e | Inr ys \<Rightarrow> Inr (y # ys)))"

text \<open>\<open>b2s\<close>: \<open>None\<close> and \<open>b''\<close> are the falsy arguments.\<close>

definition b2s :: "bytes option \<Rightarrow> error + pystr option" where
  "b2s v =
     (case v of
        None \<Rightarrow> Inr None
      | Some bs \<Rightarrow>
          if bs = [] then Inr None
          else (case utf8_decode bs of
                  None \<Rightarrow> Inl UnicodeDecodeError
                | Some t \<Rightarrow> Inr (Some t)))"

section \<open>Process metadata cache\<close>

text \<open>
  The function under the decorator: look the process up, log it, return the command line.
  Either step may raise, and then the function raises.
\<close>

definition cmdline_json :: "int \<Rightarrow> pystr list \<Rightarrow> json" where
  "cmdline_json p v = JObj [(''pid'', JInt p), (''cmdline'', JList (map JStr v))]"

definition cmdline_by_pid_wrapped :: "xenv \<Rightarrow> int \<Rightarrow> state \<Rightarrow> (error + pystr list) \<times> state" where
  "cmdline_by_pid_wrapped env p s =
     (case process_cmdline env p of
        Inl e \<Rightarrow> (Inl e, s)
      | Inr v \<Rightarrow>
          (case log ''new-pid'' (cmdline_json p v) s of
             (Inl e, s') \<Rightarrow> (Inl e, s')
           | (Inr _, s') \<Rightarrow> (Inr v, s')))"

definition maxsize :: nat where
  "maxsize = 256"

text \<open>
  \<open>functools.lru_cache(maxsize=256)\<close> around it. A hit returns the stored value and makes
  the entry the most recently used one. A miss calls the function; an exception of the
  function leaves the cache as it was; a result is stored as the most recently used entry, in place of the least
  recently used one when the cache is full.
\<close>

definition cmdline_by_pid :: "xenv \<Rightarrow> int \<Rightarrow> state \<Rightarrow> (error + pystr list) \<times> state" where
  "cmdline_by_pid env p s =
     (case map_of (cache s) p of
        Some v \<Rightarrow> (Inr v, s\<lparr> cache := (p, v) # filter (\<lambda>kv. fst kv \<noteq> p) (cache s) \<rparr>)
      | None \<Rightarrow>
          (case cmdline_by_pid_wrapped env p s of
             (Inl e, s') \<Rightarrow> (Inl e, s')
           | (Inr v, s') \<Rightarrow>
               (Inr v,
                s'\<lparr> cache := (if length (cache s') \<ge> maxsize
                               then (p, v) # butlast (cache s')
                               else (p, v) # cache s') \<rparr>)))"

section \<open>Window metadata resolver\<close>

definition getWmClass :: "xenv \<Rightarrow> window \<Rightarrow> error + pystr option list" where
  "getWmClass env win =
     (case getProperty_WM_CLASS env win of
        Inl e \<Rightarrow> Inl e
      | Inr p \<Rightarrow>
          let v = (case p of None \<Rightarrow> [] | Some bs \<Rightarrow> if bs = [] then [] else bs);
              v = bytes_split 0 v
          in map_raise b2s (map Some (filter (\<lambda>v. v \<noteq> []) v)))"

definition isWmFullscreen :: "xenv \<Rightarrow> window \<Rightarrow> error + bool" where
  "isWmFullscreen env win = getWmState env win"

definition getWmName :: "xenv \<Rightarrow> window \<Rightarrow> error + pystr option" where
  "getWmName env win =
     (case super_getWmName env win of Inl e \<Rightarrow> Inl e | Inr v \<Rightarrow> b2s v)"

definition getWmPid :: "xenv \<Rightarrow> window \<Rightarrow> error + int option" where
  "getWmPid env win =
     (case super_getWmPid env win of
        Inl e \<Rightarrow> if e = TypeError then Inr None else Inl e
      | Inr p \<Rightarrow> Inr p)"

text \<open>The body of the \<open>try\<close> in \<open>window_options\<close>; the dict is built key by key, in order.\<close>

definition window_options_try :: "xenv \<Rightarrow> window \<Rightarrow> state \<Rightarrow> (error + details) \<times> state" where
  "window_options_try env win s =
     (case getWmPid env win of
        Inl e \<Rightarrow> (Inl e, s)
      | Inr p \<Rightarrow>
          (case (case p of
                   None \<Rightarrow> (Inr [], s)
                 | Some n \<Rightarrow> if n \<noteq> 0 then cmdline_by_pid env n s else (Inr [], s)) of
             (Inl e, s') \<Rightarrow> (Inl e, s')
           | (Inr _, s') \<Rightarrow>
               (case getWmName env win of
                  Inl e \<Rightarrow> (Inl e, s')
                | Inr nm \<Rightarrow>
                    (case isWmFullscreen env win of
                       Inl e \<Rightarrow> (Inl e, s')
                     | Inr fs \<Rightarrow>
                         (case getWmClass env win of
                            Inl e \<Rightarrow> (Inl e, s')
                          | Inr cls \<Rightarrow>
                              (Inr \<lparr> name = nm, wid = win, pid = p, fullscreen = fs,
                                     class' = cls \<rparr>, s'))))))"

definition window_options :: "xenv \<Rightarrow> window option \<Rightarrow> state \<Rightarrow> (error + details option) \<times> state" where
  "window_options env win s =
     (case win of
        None \<Rightarrow> (Inr None, s)
      | Some w \<Rightarrow>
          (case window_options_try env w s of
             (Inl e, s') \<Rightarrow> if e = BadWindow then (Inr None, s') else (Inl e, s')
           | (Inr d, s') \<Rightarrow> (Inr (Some d), s')))"

section \<open>Focus tracker\<close>

text \<open>\<open>XError\<close> is the base class of the protocol errors; \<open>BadWindow\<close> is the one modelled.\<close>

definition is_XError :: "error \<Rightarrow> bool" where
  "is_XError e = (e = BadWindow)"

text \<open>\<open>window_obj\<close>: the value bound by the \<open>with\<close> statement.\<close>

definition window_obj :: "xenv \<Rightarrow> window option \<Rightarrow> error + window option" where
  "window_obj env win_id =
     (case win_id of
        None \<Rightarrow> Inr None
      | Some w \<Rightarrow>
          (case create_resource_object env w of
             Inl e \<Rightarrow> if is_XError e then Inr None else Inl e
           | Inr obj \<Rightarrow> Inr (Some obj)))"

text \<open>\<open>win.change_attributes(event_mask=...)\<close>: the request is sent, nothing is raised.\<close>

definition change_attributes :: "window \<Rightarrow> event_mask \<Rightarrow> state \<Rightarrow> state" where
  "change_attributes win m s = s\<lparr> xreqs := xreqs s @ [(win, m)] \<rparr>"

definition details_json :: "details option \<Rightarrow> json" where
  "details_json d =
     (case d of
        None \<Rightarrow> JNull
      | Some r \<Rightarrow>
          JObj [(''name'', case name r of None \<Rightarrow> JNull | Some t \<Rightarrow> JStr t),
                (''wid'', JInt (wid r)),
                (''pid'', case pid r of None \<Rightarrow> JNull | Some n \<Rightarrow> JInt n),
                (''fullscreen'', JBool (fullscreen r)),
                (''class'', JList (map (\<lambda>c. case c of None \<Rightarrow> JNull | Some t \<Rightarrow> JStr t)
                                       (class' r)))])"

definition handle_window :: "xenv \<Rightarrow> window option \<Rightarrow> state \<Rightarrow> (error + unit) \<times> state" where
  "handle_window env win s =
     (case window_options env win s of
        (Inl e, s') \<Rightarrow> (Inl e, s')
      | (Inr d, s') \<Rightarrow>
          if d \<noteq> window_details s'
          then (case flush_input_stat False s' of
                  (Inl e, s') \<Rightarrow> (Inl e, s')
                | (Inr _, s') \<Rightarrow>
                    (case log ''active-window'' (details_json d) s' of
                       (Inl e, s') \<Rightarrow> (Inl e, s')
                     | (Inr _, s') \<Rightarrow> (Inr (), s'\<lparr> window_details := d \<rparr>)))
          else (Inr (), s'))"

text \<open>The two \<open>with\<close> blocks of \<open>process_window\<close>, run when the focused window changed.\<close>

definition resubscribe :: "xenv \<Rightarrow> window option \<Rightarrow> state \<Rightarrow> (error + unit) \<times> state" where
  "resubscribe env active_window s =
     (case window_obj env (last_window s) of
        Inl e \<Rightarrow> (Inl e, s)
      | Inr old \<Rightarrow>
          let s = (case old of None \<Rightarrow> s | Some w \<Rightarrow> change_attributes w NoEventMask s)
          in (case window_obj env active_window of
                Inl e \<Rightarrow> (Inl e, s)
              | Inr new \<Rightarrow>
                  (Inr (), case new of None \<Rightarrow> s | Some w \<Rightarrow> change_attributes w PropertyChangeMask s)))"

definition process_window :: "xenv \<Rightarrow> state \<Rightarrow> (error + unit) \<times> state" where
  "process_window env s =
     (let active_window = getActiveWindow env
      in (case (if active_window \<noteq> last_window s then resubscribe env active_window s
                else (Inr (), s)) of
            (Inl e, s') \<Rightarrow> (Inl e, s')
          | (Inr _, s') \<Rightarrow>
              (case handle_window env active_window s' of
                 (Inl e, s') \<Rightarrow> (Inl e, s')
               | (Inr _, s') \<Rightarrow> (Inr (), s'\<lparr> last_window := active_window \<rparr>))))"

text \<open>
  What the threads of \<open>start\<close> do, one call at a time: a listener callback, a tick of the
  timer thread, or a check of the main loop (the first check is the one made before the
  loop). An exception leaves the main loop, and \<open>main\<close> catches only the keyboard
  interrupt, so it ends the run; the run is also cut at a call of another thread that raises. The subscription on the root window that \<open>start\<close> makes
  before the first check is not recorded.
\<close>

datatype action = Input string | Tick | Check xenv

fun execute :: "action list \<Rightarrow> state \<Rightarrow> (error + unit) \<times> state" where
  "execute [] s = (Inr (), s)"
| "execute (Input k # as) s = execute as (update_input_stat k s)"
| "execute (Tick # as) s =
     (case flush_input_stat True s of
        (Inl e, s') \<Rightarrow> (Inl e, s')
      | (Inr _, s') \<Rightarrow> execute as s')"
| "execute (Check env # as) s =
     (case process_window env s of
        (Inl e, s') \<Rightarrow> (Inl e, s')
      | (Inr _, s') \<Rightarrow> execute as s')"

definition is_active_window :: "logline \<Rightarrow> bool" where
  "is_active_window e = (event e = ''active-window'')"

definition cached :: "int \<Rightarrow> state \<Rightarrow> bool" where
  "cached p s = (map_of (cache s) p \<noteq> None)"

text \<open>The event a flush writes after a single key press.\<close>

definition press_flush_event :: "bool \<Rightarrow> logline" where
  "press_flush_event t = \<lparr> event = ''input'',
     data = JObj ([(''timeout'', JBool t), (''stats'', JObj [(''press'', JInt 1)])]
                   @ (if t then [(''interval'', JInt 20)] else [])) \<rparr>"

section \<open>The class identifiers as the specification words them\<close>

text \<open>
  The class identifiers in the words of the specification: the segments of the blob between
  NUL bytes, the empty ones dropped, each decoded as UTF-8, in their order.
\<close>

function spec_segments :: "bytes \<Rightarrow> bytes list" where
  "spec_segments bs =
     (case dropWhile (\<lambda>b. b \<noteq> 0) bs of
        [] \<Rightarrow> [takeWhile (\<lambda>b. b \<noteq> 0) bs]
      | _ # rest \<Rightarrow> takeWhile (\<lambda>b. b \<noteq> 0) bs # spec_segments rest)"
  by pat_completeness auto
termination
proof (relation "measure length")
  show "wf (measure length)" by simp
next
  fix bs :: bytes and x rest
  assume d: "dropWhile (\<lambda>b. b \<noteq> 0) bs = x # rest"
  have "length (dropWhile (\<lambda>b. b \<noteq> 0) bs) \<le> length bs"
    by (rule length_dropWhile_le)
  with d show "(rest, bs) \<in> measure length" by simp
qed

definition spec_decode :: "bytes \<Rightarrow> error + pystr" where
  "spec_decode seg = (case utf8_decode seg of None \<Rightarrow> Inl UnicodeDecodeError | Some t \<Rightarrow> Inr t)"

definition spec_class :: "bytes \<Rightarrow> error + pystr list" where
  "spec_class blob = map_raise spec_decode (filter (\<lambda>seg. seg \<noteq> []) (spec_segments blob))"

text \<open>A class property with an empty segment and a two-byte character, and a window that has it.\<close>

definition xterm_blob :: bytes where
  "xterm_blob = [0x78, 0x74, 0, 0, 0xC3, 0xA9, 0]"

definition env_class :: "bytes \<Rightarrow> xenv" where
  "env_class blob = \<lparr> getActiveWindow = Some 7, super_getWmPid = (\<lambda>w. Inl TypeError),
     super_getWmName = (\<lambda>w. Inr None), getWmState = (\<lambda>w. Inr False),
     getProperty_WM_CLASS = (\<lambda>w. Inr (Some blob)), create_resource_object = (\<lambda>w. Inr w),
     process_cmdline = (\<lambda>p. Inl NoSuchProcess) \<rparr>"

section \<open>Example situations\<close>

text \<open>
  A focused editor window: id 7, owned by process 100, named \<open>Ed\<close>. The variants: its
  name query fails because the window is closing; every query on it fails; its process has
  left the process table; it has no pid property.
\<close>

definition env_editor :: xenv where
  "env_editor = \<lparr> getActiveWindow = Some 7, super_getWmPid = (\<lambda>w. Inr (Some 100)),
     super_getWmName = (\<lambda>w. Inr (Some [0x45, 0x64])), getWmState = (\<lambda>w. Inr False),
     getProperty_WM_CLASS = (\<lambda>w. Inr (Some xterm_blob)), create_resource_object = (\<lambda>w. Inr w),
     process_cmdline = (\<lambda>p. if p = 100 then Inr [[101, 100]] else Inl NoSuchProcess) \<rparr>"

definition editor_details :: "int option \<Rightarrow> details" where
  "editor_details p = \<lparr> name = Some [69, 100], wid = 7, pid = p, fullscreen = False,
     class' = [Some [120, 116], Some [233]] \<rparr>"

definition env_closing :: xenv where
  "env_closing = env_editor\<lparr> super_getWmName := (\<lambda>w. Inl BadWindow) \<rparr>"

definition env_lost :: xenv where
  "env_lost = env_editor\<lparr> super_getWmPid := (\<lambda>w. Inl BadWindow) \<rparr>"

definition env_gone :: xenv where
  "env_gone = env_editor\<lparr> super_getWmPid := (\<lambda>w. Inr (Some 4242)) \<rparr>"

definition env_nopid :: xenv where
  "env_nopid = env_editor\<lparr> super_getWmPid := (\<lambda>w. Inl TypeError) \<rparr>"

text \<open>No window is focused.\<close>

definition env_absent :: xenv where
  "env_absent = env_lost\<lparr> getActiveWindow := None \<rparr>"

text \<open>An action during which no window is focused.\<close>

fun no_focus :: "action \<Rightarrow> bool" where
  "no_focus (Check env) = (getActiveWindow env = None)"
| "no_focus (Input k) = True"
| "no_focus Tick = True"

text \<open>The state after the first check has seen the editor window.\<close>

definition focused_editor :: state where
  "focused_editor = \<lparr> window_details = Some (editor_details (Some 100)), last_window = Some 7,
     input_stat = [], input_flush_interval = 20, cache = [(100, [[101, 100]])],
     stdout = [\<lparr> event = ''new-pid'', data = cmdline_json 100 [[101, 100]] \<rparr>,
               \<lparr> event = ''active-window'', data = details_json (Some (editor_details (Some 100))) \<rparr>],
     xreqs = [(7, PropertyChangeMask)] \<rparr>"

text \<open>A run of calls of \<open>cmdline_by_pid\<close>, one per pid, in order.\<close>

fun resolve_all :: "xenv \<Rightarrow> int list \<Rightarrow> state \<Rightarrow> state" where
  "resolve_all env [] s = s"
| "resolve_all env (p # ps) s = resolve_all env ps (snd (cmdline_by_pid env p s))"

text \<open>
  A process whose command line came from bytes that are not UTF-8: \<open>psutil\<close> decodes it with
  \<open>surrogateescape\<close>, so the string holds a lone surrogate.
\<close>

definition env_surrogate :: xenv where
  "env_surrogate = env_editor\<lparr> process_cmdline := (\<lambda>p. Inr [[0xDCFF]]) \<rparr>"

text \<open>A process table in which every pid has the command line \<open>p\<close>.\<close>

definition env_procs :: xenv where
  "env_procs = env_editor\<lparr> process_cmdline := (\<lambda>p. Inr [[112]]) \<rparr>"

section \<open>Properties of the input aggregator\<close>

lemma stat_incr: "stat k (incr k' st) = stat k st + (if k = k' then 1 else 0)"
  by (induction st) (auto simp: stat_def)

lemma incr_not_Nil: "incr k st \<noteq> []"
  by (cases st) (auto split: if_splits)

lemma map_of_stats: "map_of (map (\<lambda>(k, n). (k, JInt n)) st) k = map_option JInt (map_of st k)"
  by (induction st) auto

lemma reported_input:
  "reported k \<lparr> event = ''input'', data = JObj ((''timeout'', b) # (''stats'', stats_json st) # r) \<rparr>
     = stat k st"
  by (simp add: reported_def payload_def stats_json_def map_of_stats stat_def split: option.splits)

text \<open>The payload of an \<open>input\<close> event holds no string, so the event can always be written.\<close>

lemma stats_code_points: "json_code_points (stats_json st) = []"
  by (induction st) (auto simp: stats_json_def)

lemma input_encodable:
  "encodable (JObj [(''timeout'', JBool t), (''stats'', stats_json st)])"
  "encodable (JObj [(''timeout'', JBool t), (''stats'', stats_json st), (''interval'', JInt n)])"
  by (simp_all add: encodable_def stats_code_points)

lemma flush_input_stat_eq:
  "flush_input_stat t s =
     (Inr (),
      if input_stat s = [] then s
      else s\<lparr> stdout := stdout s @
                 [\<lparr> event = ''input'',
                    data = JObj ([(''timeout'', JBool t), (''stats'', stats_json (input_stat s))]
                                 @ (if t then [(''interval'', JInt (input_flush_interval s))] else [])) \<rparr>],
               input_stat := [] \<rparr>)"
  by (simp add: flush_input_stat_def log_def Let_def input_encodable)

lemma flush_returns: "fst (flush_input_stat t s) = Inr ()"
  by (simp add: flush_input_stat_eq)

lemma run_Flush: "run (Flush t # cs) s = run cs (snd (flush_input_stat t s))"
  by (simp add: flush_input_stat_eq)

lemma run_returns: "fst (run cs s) = Inr ()"
proof (induction cs arbitrary: s)
  case Nil
  show ?case by simp
next
  case (Cons c cs)
  show ?case
    by (cases c) (simp_all add: Cons run_Flush del: run.simps(3))
qed

lemma flush_conserves:
  "total_reported k (stdout (snd (flush_input_stat t s)))
     + stat k (input_stat (snd (flush_input_stat t s)))
     = total_reported k (stdout s) + stat k (input_stat s)"
  by (auto simp: flush_input_stat_eq total_reported_def reported_input stat_def)

lemma run_conserves:
  "total_reported k (stdout (snd (run cs s))) + stat k (input_stat (snd (run cs s)))
     = total_reported k (stdout s) + stat k (input_stat s) + int (count_list cs (Record k))"
proof (induction cs arbitrary: s)
  case Nil
  then show ?case by simp
next
  case (Cons c cs)
  show ?case
  proof (cases c)
    case (Record k')
    with Cons [of "update_input_stat k' s"] show ?thesis
      by (auto simp: update_input_stat_def stat_incr)
  next
    case (Flush t)
    with Cons [of "snd (flush_input_stat t s)"] flush_conserves [of k t s] show ?thesis
      by (simp add: run_Flush del: run.simps(3))
  qed
qed

lemma run_append: "snd (run (cs @ ds) s) = snd (run ds (snd (run cs s)))"
proof (induction cs arbitrary: s)
  case Nil
  show ?case by simp
next
  case (Cons c cs)
  show ?case
    by (cases c) (simp_all add: Cons run_Flush del: run.simps(3))
qed

lemma run_records_stdout:
  "\<forall>c \<in> set cs. is_record c \<Longrightarrow> stdout (snd (run cs s)) = stdout s"
proof (induction cs arbitrary: s)
  case Nil
  then show ?case by simp
next
  case (Cons c cs)
  then obtain k where "c = Record k" by (cases c) auto
  with Cons show ?case by (simp add: update_input_stat_def)
qed

lemma flush_empties: "input_stat (snd (flush_input_stat t s)) = []"
  by (simp add: flush_input_stat_eq)

lemma flushed_prefix_split:
  "cs = flushed_prefix cs @ rev (takeWhile is_record (rev cs))"
proof -
  have "rev (dropWhile is_record (rev cs)) @ rev (takeWhile is_record (rev cs))
          = rev (takeWhile is_record (rev cs) @ dropWhile is_record (rev cs))"
    by (simp only: rev_append)
  also have "\<dots> = cs"
    by (simp only: takeWhile_dropWhile_id rev_rev_ident)
  finally show ?thesis
    by (simp only: flushed_prefix_def)
qed

lemma flushed_prefix_ends:
  "flushed_prefix cs = [] \<or> (\<exists>ds t. flushed_prefix cs = ds @ [Flush t])"
proof (cases "dropWhile is_record (rev cs)")
  case Nil
  then show ?thesis by (simp add: flushed_prefix_def)
next
  case (Cons c ds)
  then have "\<not> is_record c" using hd_dropWhile [of is_record "rev cs"] by auto
  then obtain t where "c = Flush t" by (cases c) auto
  with Cons show ?thesis by (simp add: flushed_prefix_def)
qed

lemma run_flushed_prefix_stat:
  "input_stat s = [] \<Longrightarrow> input_stat (snd (run (flushed_prefix cs) s)) = []"
  using flushed_prefix_ends [of cs]
  by (auto simp: run_append run_Flush flush_empties simp del: run.simps(3))

text \<open>
  C1: every sequential history of \<open>record\<close> and \<open>flush\<close> calls runs to its end, and the
  counts that the emitted \<open>input\<close> events report for a kind add up to the number of
  \<open>record\<close> calls of that kind made before the last flush of the history.
\<close>

theorem C1_conservation:
  "fst (run cs init) = Inr ()
   \<and> total_reported k (stdout (snd (run cs init)))
       = int (count_list (flushed_prefix cs) (Record k))"
proof
  show "fst (run cs init) = Inr ()"
    by (rule run_returns)
  let ?tl = "rev (takeWhile is_record (rev cs))"
  let ?p = "snd (run (flushed_prefix cs) init)"
  have split: "cs = flushed_prefix cs @ ?tl"
    by (rule flushed_prefix_split)
  have "\<forall>c \<in> set ?tl. is_record c"
    by (auto dest: set_takeWhileD)
  then have "stdout (snd (run ?tl ?p)) = stdout ?p"
    by (rule run_records_stdout)
  then have "stdout (snd (run cs init)) = stdout ?p"
    using split run_append [of "flushed_prefix cs" ?tl init] by simp
  moreover have "input_stat ?p = []"
    by (rule run_flushed_prefix_stat) (simp add: init_def)
  ultimately show "total_reported k (stdout (snd (run cs init)))
       = int (count_list (flushed_prefix cs) (Record k))"
    using run_conserves [of k "flushed_prefix cs" init]
    by (simp add: stat_def init_def total_reported_def)
qed

section \<open>What the operations leave unchanged\<close>

lemma cmdline_by_pid_frame:
  assumes "cmdline_by_pid env p s = (r, s')"
  shows "input_flush_interval s' = input_flush_interval s" "input_stat s' = input_stat s"
    "window_details s' = window_details s" "last_window s' = last_window s" "xreqs s' = xreqs s"
  using assms
  by (auto simp: cmdline_by_pid_def cmdline_by_pid_wrapped_def log_def
           split: option.splits sum.splits prod.splits if_splits)

lemma window_options_try_frame:
  assumes "window_options_try env w s = (r, s')"
  shows "input_flush_interval s' = input_flush_interval s" "input_stat s' = input_stat s"
    "window_details s' = window_details s" "last_window s' = last_window s" "xreqs s' = xreqs s"
  using assms
  by (auto simp: window_options_try_def
           split: option.splits sum.splits prod.splits if_splits dest: cmdline_by_pid_frame)

lemma window_options_frame:
  assumes "window_options env w s = (r, s')"
  shows "input_flush_interval s' = input_flush_interval s" "input_stat s' = input_stat s"
    "window_details s' = window_details s" "last_window s' = last_window s" "xreqs s' = xreqs s"
  using assms
  by (auto simp: window_options_def
           split: option.splits sum.splits prod.splits if_splits dest: window_options_try_frame)

lemma flush_interval:
  "input_flush_interval (snd (flush_input_stat t s)) = input_flush_interval s"
  by (simp add: flush_input_stat_eq)

lemma handle_window_interval:
  "input_flush_interval (snd (handle_window env w s)) = input_flush_interval s"
proof (cases "window_options env w s")
  case (Pair r s1)
  then have "input_flush_interval s1 = input_flush_interval s"
    by (rule window_options_frame)
  with Pair show ?thesis
    by (simp add: handle_window_def log_def flush_input_stat_eq split: sum.splits)
qed

lemma resubscribe_interval:
  "input_flush_interval (snd (resubscribe env w s)) = input_flush_interval s"
  by (simp add: resubscribe_def change_attributes_def Let_def split: sum.splits option.splits)

lemma process_window_interval:
  "input_flush_interval (snd (process_window env s)) = input_flush_interval s"
proof -
  obtain r1 s1 where 1: "(if getActiveWindow env \<noteq> last_window s
      then resubscribe env (getActiveWindow env) s else (Inr (), s)) = (r1, s1)"
    by (cases "if getActiveWindow env \<noteq> last_window s
      then resubscribe env (getActiveWindow env) s else (Inr (), s)")
  have i1: "input_flush_interval s1 = input_flush_interval s"
    using 1 resubscribe_interval [of env "getActiveWindow env" s]
    by (auto split: if_splits)
  obtain r2 s2 where 2: "handle_window env (getActiveWindow env) s1 = (r2, s2)"
    by (cases "handle_window env (getActiveWindow env) s1")
  have i2: "input_flush_interval s2 = input_flush_interval s1"
    using 2 handle_window_interval [of env "getActiveWindow env" s1] by simp
  show ?thesis
    using 1 2 i1 i2
    by (simp add: process_window_def Let_def split: sum.splits)
qed

lemma execute_interval:
  "input_flush_interval (snd (execute acts s)) = input_flush_interval s"
proof (induction acts s rule: execute.induct)
  case (3 as s)
  then show ?case
    using flush_interval [of True s] flush_returns [of True s]
    by (auto split: sum.splits prod.splits)
next
  case (4 env as s)
  then show ?case
    using process_window_interval [of env s]
    by (auto split: sum.splits prod.splits)
qed (simp_all add: update_input_stat_def)

section \<open>Flushing\<close>

text \<open>
  C5: a flush on an empty counter bank is a no-op, whatever the timeout flag: it returns, the
  state is as it was and no line is written.
\<close>

theorem C5_flush_empty_noop:
  "input_stat s = [] \<Longrightarrow>
     flush_input_stat timeout s = (Inr (), s)
     \<and> new_events s (snd (flush_input_stat timeout s)) = []"
  by (simp add: flush_input_stat_def new_events_def)

theorem C5_flush_empty_noop_witness:
  "input_stat init = []
     \<and> flush_input_stat True init = (Inr (), init)
     \<and> flush_input_stat False init = (Inr (), init)
     \<and> new_events init (snd (flush_input_stat True init)) = []
     \<and> new_events init (snd (flush_input_stat False init)) = []"
proof -
  have e: "input_stat init = []"
    by (simp add: init_def)
  from e C5_flush_empty_noop [OF e, of True] C5_flush_empty_noop [OF e, of False]
  show ?thesis by blast
qed

lemma flush_new_events:
  "new_events s (snd (flush_input_stat t s)) =
     (if input_stat s = [] then []
      else [\<lparr> event = ''input'',
              data = JObj ([(''timeout'', JBool t), (''stats'', stats_json (input_stat s))]
                           @ (if t then [(''interval'', JInt (input_flush_interval s))] else [])) \<rparr>])"
  by (simp add: flush_input_stat_eq new_events_def)

text \<open>
  C8: in every state the program reaches, the \<open>input\<close> event written by a flush carries the
  flag the flush was called with, and it has the key \<open>interval\<close>, with the value \<open>20\<close>,
  exactly when that flag is true.
\<close>

theorem C8_interval_iff_timeout:
  "e \<in> set (new_events (snd (execute acts init))
                       (snd (flush_input_stat timeout (snd (execute acts init))))) \<Longrightarrow>
     event e = ''input'' \<and> map_of (payload e) ''timeout'' = Some (JBool timeout)
     \<and> map_of (payload e) ''interval'' = (if timeout then Some (JInt 20) else None)"
proof -
  assume e: "e \<in> set (new_events (snd (execute acts init))
                       (snd (flush_input_stat timeout (snd (execute acts init)))))"
  have "input_flush_interval (snd (execute acts init)) = 20"
    by (simp add: execute_interval init_def)
  with e show ?thesis
    by (auto simp: flush_new_events payload_def split: if_splits)
qed

theorem C8_interval_iff_timeout_witness:
  "press_flush_event True \<in> set (new_events (snd (execute [Input ''press''] init))
                       (snd (flush_input_stat True (snd (execute [Input ''press''] init)))))
   \<and> map_of (payload (press_flush_event True)) ''interval'' = Some (JInt 20)
   \<and> press_flush_event False \<in> set (new_events (snd (execute [Input ''press''] init))
                       (snd (flush_input_stat False (snd (execute [Input ''press''] init)))))
   \<and> map_of (payload (press_flush_event False)) ''interval'' = None"
proof -
  have t: "press_flush_event True \<in> set (new_events (snd (execute [Input ''press''] init))
                       (snd (flush_input_stat True (snd (execute [Input ''press''] init)))))"
    by (simp add: flush_new_events update_input_stat_def init_def press_flush_event_def stats_json_def)
  have f: "press_flush_event False \<in> set (new_events (snd (execute [Input ''press''] init))
                       (snd (flush_input_stat False (snd (execute [Input ''press''] init)))))"
    by (simp add: flush_new_events update_input_stat_def init_def press_flush_event_def stats_json_def)
  from t f C8_interval_iff_timeout [OF t] C8_interval_iff_timeout [OF f] show ?thesis
    by simp
qed

section \<open>Class identifiers\<close>

declare spec_segments.simps [simp del]

lemma bytes_split_segments: "bytes_split 0 bs = spec_segments bs"
proof (induction bs)
  case Nil
  show ?case by (simp add: spec_segments.simps [of "[]"])
next
  case (Cons b bs)
  note IH = Cons.IH
  show ?case
  proof (cases "b = 0")
    case True
    with IH show ?thesis by (simp add: spec_segments.simps [of "0 # bs"])
  next
    case False
    have l: "spec_segments (b # bs) =
        (case dropWhile (\<lambda>b. b \<noteq> 0) bs of
           [] \<Rightarrow> [b # takeWhile (\<lambda>b. b \<noteq> 0) bs]
         | _ # rest \<Rightarrow> (b # takeWhile (\<lambda>b. b \<noteq> 0) bs) # spec_segments rest)"
      using False by (subst spec_segments.simps) (simp cong: list.case_cong)
    have r: "spec_segments bs =
        (case dropWhile (\<lambda>b. b \<noteq> 0) bs of
           [] \<Rightarrow> [takeWhile (\<lambda>b. b \<noteq> 0) bs]
         | _ # rest \<Rightarrow> takeWhile (\<lambda>b. b \<noteq> 0) bs # spec_segments rest)"
      by (rule spec_segments.simps)
    show ?thesis
    proof (cases "dropWhile (\<lambda>b. b \<noteq> 0) bs")
      case Nil
      with l r have "spec_segments (b # bs) = [b # takeWhile (\<lambda>b. b \<noteq> 0) bs]"
        and "spec_segments bs = [takeWhile (\<lambda>b. b \<noteq> 0) bs]"
        by simp_all
      with False IH show ?thesis by simp
    next
      case (Cons x rest)
      with l r have "spec_segments (b # bs) = (b # takeWhile (\<lambda>b. b \<noteq> 0) bs) # spec_segments rest"
        and "spec_segments bs = takeWhile (\<lambda>b. b \<noteq> 0) bs # spec_segments rest"
        by simp_all
      with False IH show ?thesis by simp
    qed
  qed
qed

lemma map_raise_b2s:
  "\<forall>seg \<in> set segs. seg \<noteq> [] \<Longrightarrow>
     map_raise b2s (map Some segs) = map_sum id (map Some) (map_raise spec_decode segs)"
proof (induction segs)
  case Nil
  show ?case by simp
next
  case (Cons seg segs)
  then show ?case
    by (auto simp: b2s_def spec_decode_def split: option.splits sum.splits)
qed

text \<open>
  C9: for every class property blob, \<open>getWmClass\<close> returns what the specification
  describes: the blob split on NUL bytes, the empty segments dropped, every other segment
  decoded as UTF-8, in order. A segment that is not UTF-8 raises on both sides.
\<close>

theorem C9_class_identifiers:
  "getProperty_WM_CLASS env win = Inr (Some blob) \<Longrightarrow>
     getWmClass env win = map_sum id (map Some) (spec_class blob)"
proof -
  assume p: "getProperty_WM_CLASS env win = Inr (Some blob)"
  have "map_raise b2s (map Some (filter (\<lambda>v. v \<noteq> []) (bytes_split 0 blob)))
          = map_sum id (map Some) (map_raise spec_decode (filter (\<lambda>v. v \<noteq> []) (bytes_split 0 blob)))"
    by (rule map_raise_b2s) simp
  moreover have "spec_class blob
      = map_raise spec_decode (filter (\<lambda>v. v \<noteq> []) (bytes_split 0 blob))"
    by (simp add: spec_class_def bytes_split_segments)
  ultimately show ?thesis
    using p by (cases "blob = []") (simp_all add: getWmClass_def Let_def)
qed

lemma spec_class_xterm: "spec_class xterm_blob = Inr [[120, 116], [233]]"
  by (simp add: spec_class_def xterm_blob_def spec_segments.simps spec_decode_def cont_def)

lemma spec_class_bad: "spec_class [0x78, 0, 0xFF] = Inl UnicodeDecodeError"
  by (simp add: spec_class_def spec_segments.simps spec_decode_def cont_def)

theorem C9_class_identifiers_witness:
  "getProperty_WM_CLASS (env_class xterm_blob) 7 = Inr (Some xterm_blob)
   \<and> getWmClass (env_class xterm_blob) 7 = Inr [Some [120, 116], Some [233]]"
proof -
  have p: "getProperty_WM_CLASS (env_class xterm_blob) 7 = Inr (Some xterm_blob)"
    by (simp add: env_class_def)
  from p C9_class_identifiers [OF p] show ?thesis
    by (simp add: spec_class_xterm)
qed

section \<open>Process metadata cache and window metadata resolver\<close>

lemma cmdline_by_pid_hit:
  "cached p s \<Longrightarrow>
     fst (cmdline_by_pid env p s) = Inr (the (map_of (cache s) p))
     \<and> stdout (snd (cmdline_by_pid env p s)) = stdout s
     \<and> cache (snd (cmdline_by_pid env p s))
         = (p, the (map_of (cache s) p)) # filter (\<lambda>kv. fst kv \<noteq> p) (cache s)"
  by (auto simp: cached_def cmdline_by_pid_def)

lemma cmdline_by_pid_miss_raise:
  "\<not> cached p s \<Longrightarrow> process_cmdline env p = Inl e \<Longrightarrow> cmdline_by_pid env p s = (Inl e, s)"
  by (simp add: cached_def cmdline_by_pid_def cmdline_by_pid_wrapped_def)

text \<open>The command lines of the examples: two that can be written, one that cannot.\<close>

lemma example_encodable:
  "encodable (cmdline_json p [[101, 100]])"
  "encodable (cmdline_json p [[112]])"
  "\<not> encodable (cmdline_json p [[0xDCFF]])"
  by (simp_all add: encodable_def cmdline_json_def surrogate_def)

lemma cmdline_by_pid_miss_unwritable:
  "\<not> cached p s \<Longrightarrow> process_cmdline env p = Inr v \<Longrightarrow> \<not> encodable (cmdline_json p v) \<Longrightarrow>
     cmdline_by_pid env p s = (Inl UnicodeEncodeError, s)"
  by (simp add: cached_def cmdline_by_pid_def cmdline_by_pid_wrapped_def log_def)

lemma cmdline_by_pid_miss_fill:
  "\<not> cached p s \<Longrightarrow> process_cmdline env p = Inr v \<Longrightarrow> encodable (cmdline_json p v) \<Longrightarrow>
     fst (cmdline_by_pid env p s) = Inr v
     \<and> stdout (snd (cmdline_by_pid env p s)) = stdout s @ [\<lparr> event = ''new-pid'', data = cmdline_json p v \<rparr>]
     \<and> cache (snd (cmdline_by_pid env p s))
         = (if length (cache s) \<ge> maxsize then (p, v) # butlast (cache s) else (p, v) # cache s)"
  by (simp add: cached_def cmdline_by_pid_def cmdline_by_pid_wrapped_def log_def)

lemma cmdline_by_pid_no_BadWindow:
  "process_cmdline env p \<noteq> Inl BadWindow \<Longrightarrow> fst (cmdline_by_pid env p s) \<noteq> Inl BadWindow"
  by (auto simp: cmdline_by_pid_def cmdline_by_pid_wrapped_def log_def
           split: option.splits sum.splits if_splits)

lemma window_options_None: "window_options env None s = (Inr None, s)"
  by (simp add: window_options_def)

lemma window_options_no_BadWindow: "fst (window_options env win s) \<noteq> Inl BadWindow"
  by (auto simp: window_options_def split: option.splits prod.splits sum.splits)

lemma window_options_try_swallowed:
  "fst (window_options_try env w s) = Inl BadWindow \<Longrightarrow> fst (window_options env (Some w) s) = Inr None"
  by (auto simp: window_options_def split: prod.splits sum.splits)

lemma getWmPid_BadWindow: "super_getWmPid env w = Inl BadWindow \<Longrightarrow> getWmPid env w = Inl BadWindow"
  by (simp add: getWmPid_def)

lemma getWmName_BadWindow: "super_getWmName env w = Inl BadWindow \<Longrightarrow> getWmName env w = Inl BadWindow"
  by (simp add: getWmName_def)

lemma getWmClass_BadWindow:
  "getProperty_WM_CLASS env w = Inl BadWindow \<Longrightarrow> getWmClass env w = Inl BadWindow"
  by (simp add: getWmClass_def)

lemma window_options_try_no_details:
  assumes "getWmPid env w = Inl BadWindow \<or> getWmName env w = Inl BadWindow
           \<or> isWmFullscreen env w = Inl BadWindow \<or> getWmClass env w = Inl BadWindow"
  shows "fst (window_options_try env w s) \<noteq> Inr d"
  using assms
  by (auto simp: window_options_try_def split: sum.splits prod.splits option.splits if_splits)

text \<open>
  C7: \<open>window_options\<close> returns \<open>None\<close> for an absent handle and changes nothing; it never
  raises \<open>BadWindow\<close>; when the body of its \<open>try\<close> raises \<open>BadWindow\<close> it returns \<open>None\<close>; and
  when one of the four property queries fails with \<open>BadWindow\<close> no metadata is returned.
\<close>

theorem C7_bad_window_swallowed:
  "window_options env None s = (Inr None, s)
   \<and> fst (window_options env win s) \<noteq> Inl BadWindow
   \<and> (fst (window_options_try env w s) = Inl BadWindow \<longrightarrow>
        fst (window_options env (Some w) s) = Inr None)
   \<and> (super_getWmPid env w = Inl BadWindow \<longrightarrow> window_options env (Some w) s = (Inr None, s))
   \<and> (super_getWmPid env w = Inl BadWindow \<or> super_getWmName env w = Inl BadWindow
        \<or> getWmState env w = Inl BadWindow \<or> getProperty_WM_CLASS env w = Inl BadWindow \<longrightarrow>
        fst (window_options env (Some w) s) \<noteq> Inr (Some d))"
proof (intro conjI impI)
  show "window_options env None s = (Inr None, s)"
    by (rule window_options_None)
  show "fst (window_options env win s) \<noteq> Inl BadWindow"
    by (rule window_options_no_BadWindow)
  show "fst (window_options env (Some w) s) = Inr None"
    if "fst (window_options_try env w s) = Inl BadWindow"
    using that by (rule window_options_try_swallowed)
  show "window_options env (Some w) s = (Inr None, s)"
    if "super_getWmPid env w = Inl BadWindow"
    using that by (simp add: window_options_def window_options_try_def getWmPid_def)
  show "fst (window_options env (Some w) s) \<noteq> Inr (Some d)"
    if q: "super_getWmPid env w = Inl BadWindow \<or> super_getWmName env w = Inl BadWindow
        \<or> getWmState env w = Inl BadWindow \<or> getProperty_WM_CLASS env w = Inl BadWindow"
  proof -
    from q have "getWmPid env w = Inl BadWindow \<or> getWmName env w = Inl BadWindow
           \<or> isWmFullscreen env w = Inl BadWindow \<or> getWmClass env w = Inl BadWindow"
      by (auto simp: getWmPid_BadWindow getWmName_BadWindow getWmClass_BadWindow isWmFullscreen_def)
    then have "fst (window_options_try env w s) \<noteq> Inr d"
      by (rule window_options_try_no_details)
    then show ?thesis
      by (auto simp: window_options_def split: prod.splits sum.splits if_splits)
  qed
qed


lemma try_closing:
  "window_options_try env_closing 7 init
     = (Inl BadWindow, init\<lparr> cache := [(100, [[101, 100]])],
          stdout := [\<lparr> event = ''new-pid'', data = cmdline_json 100 [[101, 100]] \<rparr>] \<rparr>)"
  by (simp add: window_options_try_def env_closing_def env_editor_def getWmPid_def getWmName_def
        cmdline_by_pid_def cmdline_by_pid_wrapped_def log_def init_def maxsize_def
        example_encodable)

theorem C7_bad_window_swallowed_witness:
  "fst (window_options_try env_closing 7 init) = Inl BadWindow
   \<and> fst (window_options env_closing (Some 7) init) = Inr None
   \<and> super_getWmPid env_lost 7 = Inl BadWindow
   \<and> window_options env_lost (Some 7) init = (Inr None, init)
   \<and> fst (window_options env_lost (Some 7) init) \<noteq> Inr (Some (editor_details (Some 100)))"
proof -
  have t: "fst (window_options_try env_closing 7 init) = Inl BadWindow"
    by (simp add: try_closing)
  have l: "super_getWmPid env_lost 7 = Inl BadWindow"
    by (simp add: env_lost_def)
  from t l C7_bad_window_swallowed [of env_closing init "Some 7" 7 "editor_details (Some 100)"]
    C7_bad_window_swallowed [of env_lost init "Some 7" 7 "editor_details (Some 100)"]
  show ?thesis by blast
qed

text \<open>
  C10: when a pid was obtained and its cache fill succeeded (the process was found and its
  \<open>new-pid\<close> line could be written), and a later property fetch of the same resolution
  raises \<open>BadWindow\<close>, the resolution returns \<open>None\<close>, the \<open>new-pid\<close> event is in the
  output and the pid is cached.
\<close>

theorem C10_new_pid_not_atomic:
  assumes "getWmPid env w = Inr (Some p)" and "p \<noteq> 0" and "\<not> cached p s"
    and "process_cmdline env p = Inr v" and "encodable (cmdline_json p v)"
    and "getWmName env w = Inl BadWindow
         \<or> (\<exists>nm. getWmName env w = Inr nm)
            \<and> (isWmFullscreen env w = Inl BadWindow
                \<or> (\<exists>fs. isWmFullscreen env w = Inr fs) \<and> getWmClass env w = Inl BadWindow)"
  shows "fst (window_options env (Some w) s) = Inr None
         \<and> new_events s (snd (window_options env (Some w) s))
             = [\<lparr> event = ''new-pid'', data = cmdline_json p v \<rparr>]
         \<and> cached p (snd (window_options env (Some w) s))"
proof -
  obtain s1 where c: "cmdline_by_pid env p s = (Inr v, s1)"
    and o: "stdout s1 = stdout s @ [\<lparr> event = ''new-pid'', data = cmdline_json p v \<rparr>]"
    and k: "cache s1 = (if length (cache s) \<ge> maxsize then (p, v) # butlast (cache s)
                        else (p, v) # cache s)"
    using cmdline_by_pid_miss_fill [OF assms(3,4,5)]
    by (cases "cmdline_by_pid env p s") auto
  have "window_options_try env w s = (Inl BadWindow, s1)"
    using assms(1,2,6) c
    by (auto simp: window_options_try_def)
  then have "window_options env (Some w) s = (Inr None, s1)"
    by (simp add: window_options_def)
  with o k show ?thesis
    by (simp add: new_events_def cached_def)
qed

theorem C10_new_pid_not_atomic_witness:
  "getWmPid env_closing 7 = Inr (Some 100) \<and> (100::int) \<noteq> 0 \<and> \<not> cached 100 init
   \<and> process_cmdline env_closing 100 = Inr [[101, 100]]
   \<and> encodable (cmdline_json 100 [[101, 100]])
   \<and> getWmName env_closing 7 = Inl BadWindow
   \<and> fst (window_options env_closing (Some 7) init) = Inr None
   \<and> new_events init (snd (window_options env_closing (Some 7) init))
        = [\<lparr> event = ''new-pid'', data = cmdline_json 100 [[101, 100]] \<rparr>]
   \<and> cached 100 (snd (window_options env_closing (Some 7) init))"
proof -
  have 1: "getWmPid env_closing 7 = Inr (Some 100)"
    by (simp add: getWmPid_def env_closing_def env_editor_def)
  have 2: "(100::int) \<noteq> 0" by simp
  have 3: "\<not> cached 100 init" by (simp add: cached_def init_def)
  have 4: "process_cmdline env_closing 100 = Inr [[101, 100]]"
    by (simp add: env_closing_def env_editor_def)
  have 5: "getWmName env_closing 7 = Inl BadWindow"
    by (simp add: getWmName_def env_closing_def env_editor_def)
  from 5 have 6: "getWmName env_closing 7 = Inl BadWindow
         \<or> (\<exists>nm. getWmName env_closing 7 = Inr nm)
            \<and> (isWmFullscreen env_closing 7 = Inl BadWindow
                \<or> (\<exists>fs. isWmFullscreen env_closing 7 = Inr fs)
                   \<and> getWmClass env_closing 7 = Inl BadWindow)"
    by simp
  have 7: "encodable (cmdline_json 100 [[101, 100]])"
    by (rule example_encodable)
  from 1 2 3 4 5 7 C10_new_pid_not_atomic [OF 1 2 3 4 7 6] show ?thesis
    by blast
qed

text \<open>
  C3: at a window whose pid is no longer in the process table, the lookup error leaves the
  cache as it was and leaves \<open>window_options\<close> and the check as an exception; with no pid
  the same window resolves.
\<close>

theorem C3_lookup_failure_propagates:
  "cmdline_by_pid env_gone 4242 init = (Inl NoSuchProcess, init)
   \<and> window_options env_gone (Some 7) init = (Inl NoSuchProcess, init)
   \<and> fst (execute [Check env_gone] init) = Inl NoSuchProcess
   \<and> fst (window_options env_nopid (Some 7) init) = Inr (Some (editor_details None))"
proof (intro conjI)
  show c: "cmdline_by_pid env_gone 4242 init = (Inl NoSuchProcess, init)"
    by (simp add: cmdline_by_pid_def cmdline_by_pid_wrapped_def env_gone_def env_editor_def init_def)
  show w: "window_options env_gone (Some 7) init = (Inl NoSuchProcess, init)"
    using c by (simp add: window_options_def window_options_try_def getWmPid_def env_gone_def)
  have "resubscribe env_gone (Some 7) init
          = (Inr (), init\<lparr> xreqs := [(7, PropertyChangeMask)] \<rparr>)"
    by (simp add: resubscribe_def window_obj_def change_attributes_def init_def env_gone_def
          env_editor_def)
  moreover have "window_options env_gone (Some 7) (init\<lparr> xreqs := [(7, PropertyChangeMask)] \<rparr>)
      = (Inl NoSuchProcess, init\<lparr> xreqs := [(7, PropertyChangeMask)] \<rparr>)"
    by (simp add: window_options_def window_options_try_def getWmPid_def env_gone_def
          cmdline_by_pid_def cmdline_by_pid_wrapped_def env_editor_def init_def)
  ultimately show "fst (execute [Check env_gone] init) = Inl NoSuchProcess"
    by (simp add: process_window_def handle_window_def env_gone_def env_editor_def init_def)
  show "fst (window_options env_nopid (Some 7) init) = Inr (Some (editor_details None))"
    by (simp add: window_options_def window_options_try_def getWmPid_def getWmName_def
          isWmFullscreen_def getWmClass_def b2s_def env_nopid_def env_editor_def editor_details_def
          xterm_blob_def cont_def)
qed

section \<open>Focus tracker\<close>

lemma cmdline_by_pid_stdout:
  "\<exists>evs. stdout (snd (cmdline_by_pid env p s)) = stdout s @ evs
         \<and> (\<forall>e \<in> set evs. event e = ''new-pid'')"
  by (auto simp: cmdline_by_pid_def cmdline_by_pid_wrapped_def log_def
           split: option.splits sum.splits if_splits)

lemma window_options_try_stdout:
  "\<exists>evs. stdout (snd (window_options_try env w s)) = stdout s @ evs
         \<and> (\<forall>e \<in> set evs. event e = ''new-pid'')"
proof (cases "getWmPid env w")
  case (Inl e)
  then show ?thesis by (simp add: window_options_try_def)
next
  case (Inr p)
  show ?thesis
  proof (cases "\<exists>n. p = Some n \<and> n \<noteq> 0")
    case True
    then obtain n where n: "p = Some n" "n \<noteq> 0" by auto
    obtain r s1 where c: "cmdline_by_pid env n s = (r, s1)"
      by (cases "cmdline_by_pid env n s")
    with cmdline_by_pid_stdout [of env n s]
    obtain evs where "stdout s1 = stdout s @ evs" "\<forall>e \<in> set evs. event e = ''new-pid''"
      by auto
    with Inr n c show ?thesis
      by (auto simp: window_options_try_def split: sum.splits)
  next
    case False
    with Inr show ?thesis
      by (cases p) (auto simp: window_options_try_def split: sum.splits)
  qed
qed

lemma window_options_stdout:
  "\<exists>evs. stdout (snd (window_options env win s)) = stdout s @ evs
         \<and> (\<forall>e \<in> set evs. event e = ''new-pid'')"
proof (cases win)
  case None
  then show ?thesis by (simp add: window_options_def)
next
  case (Some w)
  obtain r s1 where t: "window_options_try env w s = (r, s1)"
    by (cases "window_options_try env w s")
  with window_options_try_stdout [of env w s] Some show ?thesis
    by (auto simp: window_options_def split: sum.splits)
qed

lemma cmdline_by_pid_cache_only:
  "cache s = cache t \<Longrightarrow>
     fst (cmdline_by_pid env p s) = fst (cmdline_by_pid env p t)
     \<and> cache (snd (cmdline_by_pid env p s)) = cache (snd (cmdline_by_pid env p t))"
  by (auto simp: cmdline_by_pid_def cmdline_by_pid_wrapped_def log_def
           split: option.splits sum.splits if_splits)

lemma window_options_try_cache_only:
  assumes "cache s = cache t"
  shows "fst (window_options_try env w s) = fst (window_options_try env w t)"
proof (cases "getWmPid env w")
  case (Inl e)
  then show ?thesis by (simp add: window_options_try_def)
next
  case (Inr p)
  show ?thesis
  proof (cases "\<exists>n. p = Some n \<and> n \<noteq> 0")
    case True
    then obtain n where n: "p = Some n" "n \<noteq> 0" by auto
    obtain r s1 where c: "cmdline_by_pid env n s = (r, s1)"
      by (cases "cmdline_by_pid env n s")
    obtain r' t1 where c': "cmdline_by_pid env n t = (r', t1)"
      by (cases "cmdline_by_pid env n t")
    from cmdline_by_pid_cache_only [OF assms, of env n] c c' have "r = r'" by simp
    with Inr n c c' show ?thesis
      by (auto simp: window_options_try_def split: sum.splits)
  next
    case False
    with Inr show ?thesis
      by (cases p) (auto simp: window_options_try_def split: sum.splits)
  qed
qed

lemma window_options_cache_only:
  assumes "cache s = cache t"
  shows "fst (window_options env win s) = fst (window_options env win t)"
proof (cases win)
  case None
  then show ?thesis by (simp add: window_options_def)
next
  case (Some w)
  obtain r s1 where a: "window_options_try env w s = (r, s1)"
    by (cases "window_options_try env w s")
  obtain r' t1 where b: "window_options_try env w t = (r', t1)"
    by (cases "window_options_try env w t")
  from window_options_try_cache_only [OF assms, of env w] a b have "r = r'" by simp
  with Some a b show ?thesis
    by (auto simp: window_options_def split: sum.splits)
qed

lemma resubscribe_frame:
  assumes "resubscribe env w s = (r, s')"
  shows "cache s' = cache s" "stdout s' = stdout s" "window_details s' = window_details s"
    "input_stat s' = input_stat s" "last_window s' = last_window s"
  using assms
  by (auto simp: resubscribe_def change_attributes_def Let_def split: sum.splits option.splits)

lemma flush_stdout:
  "\<exists>evs. stdout (snd (flush_input_stat t s)) = stdout s @ evs
         \<and> (\<forall>e \<in> set evs. event e = ''input'')"
  by (simp add: flush_input_stat_eq)

lemma flush_frame:
  "window_details (snd (flush_input_stat t s)) = window_details s"
  "last_window (snd (flush_input_stat t s)) = last_window s"
  "cache (snd (flush_input_stat t s)) = cache s"
  by (simp_all add: flush_input_stat_eq)

lemma handle_window_changed:
  assumes "handle_window env win s = (Inr (), s')"
  shows "fst (window_options env win s) = Inr (window_details s')"
    and "filter is_active_window (new_events s s')
          = (if window_details s' \<noteq> window_details s
             then [\<lparr> event = ''active-window'', data = details_json (window_details s') \<rparr>]
             else [])"
    and "last_window s' = last_window s"
proof -
  obtain r s1 where w: "window_options env win s = (r, s1)"
    by (cases "window_options env win s")
  with assms obtain d where r: "r = Inr d"
    by (cases r) (auto simp: handle_window_def)
  from window_options_stdout [of env win s] w
  obtain evs where evs: "stdout s1 = stdout s @ evs" "\<forall>e \<in> set evs. event e = ''new-pid''"
    by auto
  have wd: "window_details s1 = window_details s" and lw: "last_window s1 = last_window s"
    using w by (rule window_options_frame)+
  have no: "filter is_active_window evs = []"
    using evs(2) by (auto simp: is_active_window_def filter_empty_conv)
  show "fst (window_options env win s) = Inr (window_details s')"
    using assms w r wd
    by (auto simp: handle_window_def flush_input_stat_eq log_def split: if_splits)
  show "filter is_active_window (new_events s s')
          = (if window_details s' \<noteq> window_details s
             then [\<lparr> event = ''active-window'', data = details_json (window_details s') \<rparr>]
             else [])"
    using assms w r wd evs(1) no
    by (auto simp: handle_window_def flush_input_stat_eq new_events_def log_def
                   is_active_window_def
             split: if_splits)
  show "last_window s' = last_window s"
    using assms w r lw
    by (auto simp: handle_window_def flush_input_stat_eq log_def split: if_splits)
qed

text \<open>
  C2: a check that completes stores the freshly resolved metadata, writes one
  \<open>active-window\<close> event if that metadata differs from the stored one and none if it is
  equal, and sets \<open>last_window\<close> to the current handle in both cases.
\<close>

theorem C2_active_window_iff_changed:
  assumes "process_window env s = (Inr (), s')"
  shows "fst (window_options env (getActiveWindow env) s) = Inr (window_details s')
         \<and> filter is_active_window (new_events s s')
             = (if window_details s' \<noteq> window_details s
                then [\<lparr> event = ''active-window'', data = details_json (window_details s') \<rparr>]
                else [])
         \<and> last_window s' = getActiveWindow env"
proof -
  let ?w = "getActiveWindow env"
  obtain r1 s1 where 1: "(if ?w \<noteq> last_window s then resubscribe env ?w s else (Inr (), s)) = (r1, s1)"
    by (cases "if ?w \<noteq> last_window s then resubscribe env ?w s else (Inr (), s)")
  have f1: "cache s1 = cache s" "stdout s1 = stdout s" "window_details s1 = window_details s"
    using 1 by (auto split: if_splits dest: resubscribe_frame)
  obtain r2 s2 where 2: "handle_window env ?w s1 = (r2, s2)"
    by (cases "handle_window env ?w s1")
  from assms 1 2 have r: "r1 = Inr ()" "r2 = Inr ()" and s': "s' = s2\<lparr> last_window := ?w \<rparr>"
    by (auto simp: process_window_def Let_def split: sum.splits)
  from 2 r have h: "handle_window env ?w s1 = (Inr (), s2)" by simp
  have "fst (window_options env ?w s) = fst (window_options env ?w s1)"
    by (rule window_options_cache_only) (simp add: f1)
  with handle_window_changed [OF h] f1 s' show ?thesis
    by (simp add: new_events_def)
qed


lemmas env_defs = env_editor_def env_closing_def env_lost_def env_gone_def env_nopid_def
  env_absent_def

lemmas resolver_defs = window_options_def window_options_try_def getWmPid_def getWmName_def
  isWmFullscreen_def getWmClass_def b2s_def cmdline_by_pid_def cmdline_by_pid_wrapped_def
  maxsize_def xterm_blob_def cont_def

lemmas tracker_defs = process_window_def handle_window_def resubscribe_def window_obj_def
  change_attributes_def flush_input_stat_def log_def is_XError_def encodable_def surrogate_def
  cmdline_json_def details_json_def

lemma check_editor_init: "process_window env_editor init = (Inr (), focused_editor)"
  by (simp add: tracker_defs resolver_defs env_defs init_def focused_editor_def editor_details_def)

lemma check_editor_again: "process_window env_editor focused_editor = (Inr (), focused_editor)"
  by (simp add: tracker_defs resolver_defs env_defs focused_editor_def editor_details_def)

lemma check_absent_after_editor:
  "process_window env_absent focused_editor
     = (Inr (), focused_editor\<lparr> window_details := None, last_window := None,
          stdout := stdout focused_editor @ [\<lparr> event = ''active-window'', data = JNull \<rparr>],
          xreqs := [(7, PropertyChangeMask), (7, NoEventMask)] \<rparr>)"
  by (simp add: tracker_defs resolver_defs env_defs focused_editor_def editor_details_def
        details_json_def)

lemma check_lost_init:
  "process_window env_lost init
     = (Inr (), init\<lparr> last_window := Some 7, xreqs := [(7, PropertyChangeMask)] \<rparr>)"
  by (simp add: tracker_defs resolver_defs env_defs init_def)

theorem C2_active_window_iff_changed_witness:
  "process_window env_editor init = (Inr (), focused_editor)
   \<and> filter is_active_window (new_events init focused_editor)
       = [\<lparr> event = ''active-window'', data = details_json (Some (editor_details (Some 100))) \<rparr>]
   \<and> process_window env_editor focused_editor = (Inr (), focused_editor)
   \<and> filter is_active_window (new_events focused_editor focused_editor) = []
   \<and> filter is_active_window (new_events focused_editor (snd (process_window env_absent focused_editor)))
       = [\<lparr> event = ''active-window'', data = JNull \<rparr>]
   \<and> filter is_active_window (new_events init (snd (process_window env_lost init))) = []
   \<and> last_window (snd (process_window env_lost init)) = Some 7"
proof -
  have wd: "window_details focused_editor = Some (editor_details (Some 100))"
    by (simp add: focused_editor_def)
  have wi: "window_details init = None"
    by (simp add: init_def)
  have la: "getActiveWindow env_lost = Some 7"
    by (simp add: env_defs)
  have A: "filter is_active_window (new_events init focused_editor)
       = [\<lparr> event = ''active-window'', data = details_json (Some (editor_details (Some 100))) \<rparr>]"
    using C2_active_window_iff_changed [OF check_editor_init] wd wi by simp
  have B: "filter is_active_window (new_events focused_editor focused_editor) = []"
    using C2_active_window_iff_changed [OF check_editor_again] by simp
  have C: "filter is_active_window (new_events focused_editor (snd (process_window env_absent focused_editor)))
       = [\<lparr> event = ''active-window'', data = JNull \<rparr>]"
    using C2_active_window_iff_changed [OF check_absent_after_editor] wd
    by (simp add: check_absent_after_editor details_json_def)
  have D: "filter is_active_window (new_events init (snd (process_window env_lost init))) = []
      \<and> last_window (snd (process_window env_lost init)) = Some 7"
    using C2_active_window_iff_changed [OF check_lost_init] la
    by (simp add: check_lost_init)
  from A B C D check_editor_init check_editor_again show ?thesis
    by blast
qed

lemma check_no_focus:
  assumes "getActiveWindow env = None" and "window_details s = None" and "last_window s = None"
  shows "process_window env s = (Inr (), s)"
  using assms by (simp add: process_window_def handle_window_def window_options_def)

lemma execute_no_focus:
  assumes "list_all no_focus acts" and "window_details s = None" and "last_window s = None"
  shows "fst (execute acts s) = Inr ()
         \<and> filter is_active_window (stdout (snd (execute acts s)))
             = filter is_active_window (stdout s)"
  using assms
proof (induction acts arbitrary: s)
  case Nil
  then show ?case by simp
next
  case (Cons a as)
  show ?case
  proof (cases a)
    case (Input k)
    with Cons.prems Cons.IH [of "update_input_stat k s"] show ?thesis
      by (simp add: update_input_stat_def)
  next
    case Tick
    let ?f = "snd (flush_input_stat True s)"
    have e: "execute (Tick # as) s = execute as ?f"
      by (simp add: flush_input_stat_eq)
    from flush_stdout [of True s]
    obtain fvs where fvs: "stdout ?f = stdout s @ fvs" "\<forall>e \<in> set fvs. event e = ''input''"
      by auto
    then have "filter is_active_window fvs = []"
      by (auto simp: is_active_window_def filter_empty_conv)
    with fvs(1) have "filter is_active_window (stdout ?f) = filter is_active_window (stdout s)"
      by simp
    with Tick e Cons.prems Cons.IH [of ?f] show ?thesis
      by (simp add: flush_frame)
  next
    case (Check env)
    with Cons.prems have "process_window env s = (Inr (), s)"
      by (simp add: check_no_focus)
    with Check Cons.prems Cons.IH [of s] show ?thesis by simp
  qed
qed

text \<open>
  C4, as stated, fails: with no window focused the startup check writes nothing, because the
  resolved \<open>None\<close> equals the initial stored metadata.
\<close>

theorem C4_counterexample:
  "getActiveWindow env_absent = None
   \<and> process_window env_absent init = (Inr (), init)
   \<and> stdout (snd (execute [Check env_absent] init)) = []
   \<and> filter is_active_window (stdout (snd (execute [Check env_absent] init)))
       \<noteq> [\<lparr> event = ''active-window'', data = JNull \<rparr>]"
proof -
  have a: "getActiveWindow env_absent = None"
    by (simp add: env_defs)
  have p: "process_window env_absent init = (Inr (), init)"
    by (rule check_no_focus [OF a]) (simp_all add: init_def)
  have "stdout init = []" by (simp add: init_def)
  with a p show ?thesis by simp
qed

text \<open>
  C4, amended: while no window is ever focused, no check raises and no \<open>active-window\<close>
  event is written, neither by the startup check nor by any later one.
\<close>

theorem C4_no_focus_no_event:
  "list_all no_focus acts \<Longrightarrow>
     fst (execute acts init) = Inr ()
     \<and> filter is_active_window (stdout (snd (execute acts init))) = []"
  using execute_no_focus [of acts init] by (simp add: init_def)

theorem C4_no_focus_no_event_witness:
  "list_all no_focus [Check env_absent, Input ''press'', Tick, Check env_absent]
   \<and> fst (execute [Check env_absent, Input ''press'', Tick, Check env_absent] init) = Inr ()
   \<and> filter is_active_window
        (stdout (snd (execute [Check env_absent, Input ''press'', Tick, Check env_absent] init))) = []"
proof -
  have n: "list_all no_focus [Check env_absent, Input ''press'', Tick, Check env_absent]"
    by (simp add: env_defs)
  from n C4_no_focus_no_event [OF n] show ?thesis by blast
qed

section \<open>The cache is a least-recently-used cache of 256 entries\<close>

lemma cached_keys: "cached p s \<longleftrightarrow> p \<in> set (map fst (cache s))"
  by (simp add: cached_def map_of_eq_None_iff)

lemma hit_keys:
  "cached p s \<Longrightarrow>
     map fst (cache (snd (cmdline_by_pid env p s))) = p # filter (\<lambda>k. k \<noteq> p) (map fst (cache s))"
  by (simp add: cmdline_by_pid_hit filter_map comp_def)

lemma miss_keys:
  "\<not> cached p s \<Longrightarrow> process_cmdline env p = Inr v \<Longrightarrow> encodable (cmdline_json p v) \<Longrightarrow>
     length (cache s) \<le> 256 \<Longrightarrow>
     map fst (cache (snd (cmdline_by_pid env p s))) = take 256 (p # map fst (cache s))"
proof -
  assume m: "\<not> cached p s" "process_cmdline env p = Inr v" "encodable (cmdline_json p v)"
    and l: "length (cache s) \<le> 256"
  show ?thesis
  proof (cases "length (cache s) = 256")
    case True
    then have "take 255 (map fst (cache s)) = butlast (map fst (cache s))"
      by (simp add: butlast_conv_take)
    with True cmdline_by_pid_miss_fill [OF m] show ?thesis
      by (simp add: maxsize_def map_butlast)
  next
    case False
    with l have "length (cache s) < 256" by simp
    with cmdline_by_pid_miss_fill [OF m] show ?thesis
      by (simp add: maxsize_def)
  qed
qed

lemma filter_length_less: "x \<in> set xs \<Longrightarrow> length (filter (\<lambda>k. k \<noteq> x) xs) < length xs"
  by (induction xs) (auto simp: less_Suc_eq_le)

lemma cache_bound:
  assumes "length (cache s) \<le> 256"
  shows "length (cache (snd (cmdline_by_pid env p s))) \<le> 256"
proof (cases "cached p s")
  case True
  then have "p \<in> set (map fst (cache s))" by (simp add: cached_keys)
  then have "length (filter (\<lambda>k. k \<noteq> p) (map fst (cache s))) < length (map fst (cache s))"
    by (rule filter_length_less)
  moreover have "length (cache (snd (cmdline_by_pid env p s)))
      = length (map fst (cache (snd (cmdline_by_pid env p s))))" by simp
  ultimately show ?thesis
    using assms hit_keys [OF True, of env] by simp
next
  case False
  show ?thesis
  proof (cases "process_cmdline env p")
    case (Inl e)
    with False assms show ?thesis by (simp add: cmdline_by_pid_miss_raise)
  next
    case (Inr v)
    show ?thesis
    proof (cases "encodable (cmdline_json p v)")
      case True
      have "length (cache (snd (cmdline_by_pid env p s)))
        = length (map fst (cache (snd (cmdline_by_pid env p s))))" by simp
      also have "\<dots> \<le> 256"
        by (simp only: miss_keys [OF False Inr True assms]) simp
      finally show ?thesis .
    next
      case unwritable: False
      with False Inr assms show ?thesis by (simp add: cmdline_by_pid_miss_unwritable)
    qed
  qed
qed

lemma take_append_take: "take n (xs @ take n ys) = take n (xs @ ys)"
  by (simp add: min_def)

lemma resolve_all_keys:
  assumes "distinct ps" and "set ps \<inter> set (map fst (cache s)) = {}"
    and "\<forall>q \<in> set ps. process_cmdline env q = Inr (c q) \<and> encodable (cmdline_json q (c q))"
    and "length (cache s) \<le> 256"
  shows "map fst (cache (resolve_all env ps s)) = take 256 (rev ps @ map fst (cache s))"
  using assms
proof (induction ps arbitrary: s)
  case Nil
  then show ?case by simp
next
  case (Cons p ps)
  let ?s1 = "snd (cmdline_by_pid env p s)"
  have m: "\<not> cached p s" using Cons.prems(2) by (auto simp: cached_keys)
  have v: "process_cmdline env p = Inr (c p)" and w: "encodable (cmdline_json p (c p))"
    using Cons.prems(3) by simp_all
  have k: "map fst (cache ?s1) = take 256 (p # map fst (cache s))"
    by (rule miss_keys [OF m v w Cons.prems(4)])
  have b: "length (cache ?s1) \<le> 256"
    by (rule cache_bound [OF Cons.prems(4)])
  have "set (take 256 (p # map fst (cache s))) \<subseteq> insert p (set (map fst (cache s)))"
    using set_take_subset [of 256 "p # map fst (cache s)"] by simp
  with k Cons.prems(1,2) have d: "set ps \<inter> set (map fst (cache ?s1)) = {}"
    by auto
  have "map fst (cache (resolve_all env ps ?s1)) = take 256 (rev ps @ map fst (cache ?s1))"
    using Cons.prems(1,3) by (intro Cons.IH [OF _ d _ b]) simp_all
  also have "\<dots> = take 256 (rev ps @ p # map fst (cache s))"
    unfolding k by (rule take_append_take)
  finally show ?case by simp
qed

lemma resolve_257:
  assumes "distinct ps" and "length ps = 257"
    and "\<forall>q \<in> set ps. process_cmdline env q = Inr (c q) \<and> encodable (cmdline_json q (c q))"
  shows "map fst (cache (resolve_all env ps init)) = rev (tl ps)"
proof -
  have "map fst (cache (resolve_all env ps init)) = take 256 (rev ps @ map fst (cache init))"
    by (rule resolve_all_keys [OF assms(1) _ assms(3)]) (simp_all add: init_def)
  also have "\<dots> = take 256 (rev ps)" by (simp add: init_def)
  also have "\<dots> = rev (drop 1 ps)"
    using assms(2) by (simp add: take_rev)
  finally show ?thesis by (simp add: drop_Suc)
qed


lemma resolve_all_events:
  assumes "distinct ps" and "set ps \<inter> set (map fst (cache s)) = {}"
    and "\<forall>q \<in> set ps. process_cmdline env q = Inr (c q) \<and> encodable (cmdline_json q (c q))"
    and "length (cache s) \<le> 256"
  shows "stdout (resolve_all env ps s)
           = stdout s @ map (\<lambda>q. \<lparr> event = ''new-pid'', data = cmdline_json q (c q) \<rparr>) ps"
  using assms
proof (induction ps arbitrary: s)
  case Nil
  then show ?case by simp
next
  case (Cons p ps)
  let ?s1 = "snd (cmdline_by_pid env p s)"
  have m: "\<not> cached p s" using Cons.prems(2) by (auto simp: cached_keys)
  have v: "process_cmdline env p = Inr (c p)" and w: "encodable (cmdline_json p (c p))"
    using Cons.prems(3) by simp_all
  have k: "map fst (cache ?s1) = take 256 (p # map fst (cache s))"
    by (rule miss_keys [OF m v w Cons.prems(4)])
  have b: "length (cache ?s1) \<le> 256"
    by (rule cache_bound [OF Cons.prems(4)])
  have "set (take 256 (p # map fst (cache s))) \<subseteq> insert p (set (map fst (cache s)))"
    using set_take_subset [of 256 "p # map fst (cache s)"] by simp
  with k Cons.prems(1,2) have d: "set ps \<inter> set (map fst (cache ?s1)) = {}"
    by auto
  have "stdout (resolve_all env ps ?s1)
          = stdout ?s1 @ map (\<lambda>q. \<lparr> event = ''new-pid'', data = cmdline_json q (c q) \<rparr>) ps"
    using Cons.prems(1,3) by (intro Cons.IH [OF _ d _ b]) simp_all
  with cmdline_by_pid_miss_fill [OF m v w] show ?case by simp
qed

lemma miss_fill_conditions:
  "\<not> cached p s \<Longrightarrow> fst (cmdline_by_pid env p s) = Inr v \<Longrightarrow>
     process_cmdline env p = Inr v \<and> encodable (cmdline_json p v)"
  by (auto simp: cached_def cmdline_by_pid_def cmdline_by_pid_wrapped_def log_def
           split: sum.splits if_splits)

lemma miss_raise_unchanged:
  "\<not> cached p s \<Longrightarrow> fst (cmdline_by_pid env p s) = Inl e \<Longrightarrow> snd (cmdline_by_pid env p s) = s"
  by (auto simp: cached_def cmdline_by_pid_def cmdline_by_pid_wrapped_def log_def
           split: sum.splits if_splits)

text \<open>
  C6: a call of \<open>cmdline_by_pid\<close> for a pid that is not cached fills the cache when the
  process is found and its line can be written; every such successful miss-fill writes
  exactly one \<open>new-pid\<close> event and caches the pid, and a miss that raises writes nothing and
  caches nothing; a call for a cached pid writes nothing and keeps it cached; the cache
  never grows beyond 256 entries; a fill of a full cache drops the least recently used
  entry, and a hit makes its entry the most recent; and after 257 distinct pids were
  resolved from the empty cache, each was announced once, the first one is no longer cached
  while the other 256 are, and resolving the first one again announces it again.
\<close>

theorem C6_new_pid_once_lru:
  "(\<not> cached p s \<and> process_cmdline env p = Inr v \<and> encodable (cmdline_json p v) \<longrightarrow>
      fst (cmdline_by_pid env p s) = Inr v)
   \<and> (\<not> cached p s \<and> fst (cmdline_by_pid env p s) = Inr v \<longrightarrow>
      new_events s (snd (cmdline_by_pid env p s)) = [\<lparr> event = ''new-pid'', data = cmdline_json p v \<rparr>]
      \<and> cached p (snd (cmdline_by_pid env p s)))
   \<and> (\<not> cached p s \<and> fst (cmdline_by_pid env p s) = Inl e \<longrightarrow>
      snd (cmdline_by_pid env p s) = s)
   \<and> (cached p s \<longrightarrow>
      new_events s (snd (cmdline_by_pid env p s)) = []
      \<and> cached p (snd (cmdline_by_pid env p s))
      \<and> map fst (cache (snd (cmdline_by_pid env p s)))
          = p # filter (\<lambda>k. k \<noteq> p) (map fst (cache s)))
   \<and> (length (cache s) \<le> 256 \<longrightarrow> length (cache (snd (cmdline_by_pid env p s))) \<le> 256)
   \<and> (\<not> cached p s \<and> fst (cmdline_by_pid env p s) = Inr v \<and> length (cache s) = 256 \<longrightarrow>
      map fst (cache (snd (cmdline_by_pid env p s))) = p # butlast (map fst (cache s)))
   \<and> (distinct ps \<and> length ps = 257
       \<and> (\<forall>q \<in> set ps. process_cmdline env q = Inr (c q) \<and> encodable (cmdline_json q (c q))) \<longrightarrow>
      new_events init (resolve_all env ps init)
         = map (\<lambda>q. \<lparr> event = ''new-pid'', data = cmdline_json q (c q) \<rparr>) ps
      \<and> \<not> cached (hd ps) (resolve_all env ps init)
      \<and> (\<forall>q \<in> set (tl ps). cached q (resolve_all env ps init))
      \<and> new_events (resolve_all env ps init)
            (snd (cmdline_by_pid env (hd ps) (resolve_all env ps init)))
         = [\<lparr> event = ''new-pid'', data = cmdline_json (hd ps) (c (hd ps)) \<rparr>])"
proof (intro conjI impI)
  assume "\<not> cached p s \<and> process_cmdline env p = Inr v \<and> encodable (cmdline_json p v)"
  then show "fst (cmdline_by_pid env p s) = Inr v"
    using cmdline_by_pid_miss_fill [of p s env v] by simp
next
  assume m: "\<not> cached p s \<and> fst (cmdline_by_pid env p s) = Inr v"
  then have c: "process_cmdline env p = Inr v \<and> encodable (cmdline_json p v)"
    using miss_fill_conditions [of p s env v] by simp
  with m have f: "stdout (snd (cmdline_by_pid env p s))
                  = stdout s @ [\<lparr> event = ''new-pid'', data = cmdline_json p v \<rparr>]"
    and k: "cache (snd (cmdline_by_pid env p s))
         = (if length (cache s) \<ge> maxsize then (p, v) # butlast (cache s) else (p, v) # cache s)"
    using cmdline_by_pid_miss_fill [of p s env v] by simp_all
  from f show "new_events s (snd (cmdline_by_pid env p s))
      = [\<lparr> event = ''new-pid'', data = cmdline_json p v \<rparr>]"
    by (simp add: new_events_def)
  from k show "cached p (snd (cmdline_by_pid env p s))"
    by (simp add: cached_def)
next
  assume "\<not> cached p s \<and> fst (cmdline_by_pid env p s) = Inl e"
  then show "snd (cmdline_by_pid env p s) = s"
    using miss_raise_unchanged [of p s env e] by simp
next
  assume h: "cached p s"
  from cmdline_by_pid_hit [OF h, of env]
  show "new_events s (snd (cmdline_by_pid env p s)) = []"
    by (simp add: new_events_def)
  from hit_keys [OF h, of env] show "cached p (snd (cmdline_by_pid env p s))"
    by (simp add: cached_keys)
  show "map fst (cache (snd (cmdline_by_pid env p s)))
          = p # filter (\<lambda>k. k \<noteq> p) (map fst (cache s))"
    by (rule hit_keys [OF h])
next
  assume "length (cache s) \<le> 256"
  then show "length (cache (snd (cmdline_by_pid env p s))) \<le> 256"
    by (rule cache_bound)
next
  assume m: "\<not> cached p s \<and> fst (cmdline_by_pid env p s) = Inr v \<and> length (cache s) = 256"
  then have "process_cmdline env p = Inr v \<and> encodable (cmdline_json p v)"
    using miss_fill_conditions [of p s env v] by simp
  with m show "map fst (cache (snd (cmdline_by_pid env p s))) = p # butlast (map fst (cache s))"
    using cmdline_by_pid_miss_fill [of p s env v] by (simp add: maxsize_def map_butlast)
next
  assume a: "distinct ps \<and> length ps = 257
       \<and> (\<forall>q \<in> set ps. process_cmdline env q = Inr (c q) \<and> encodable (cmdline_json q (c q)))"
  let ?t = "resolve_all env ps init"
  from a have d: "distinct ps" and l: "length ps = 257"
    and v: "\<forall>q \<in> set ps. process_cmdline env q = Inr (c q) \<and> encodable (cmdline_json q (c q))"
    by simp_all
  from l obtain x xs where ps: "ps = x # xs" by (cases ps) auto
  have keys: "map fst (cache ?t) = rev (tl ps)"
    by (rule resolve_257 [OF d l v])
  have "stdout ?t = stdout init @ map (\<lambda>q. \<lparr> event = ''new-pid'', data = cmdline_json q (c q) \<rparr>) ps"
    by (rule resolve_all_events [OF d _ v]) (simp_all add: init_def)
  then show "new_events init ?t = map (\<lambda>q. \<lparr> event = ''new-pid'', data = cmdline_json q (c q) \<rparr>) ps"
    by (simp add: new_events_def)
  show n: "\<not> cached (hd ps) ?t"
    using keys d ps by (simp add: cached_keys)
  show "\<forall>q \<in> set (tl ps). cached q ?t"
    using keys by (simp add: cached_keys)
  have "process_cmdline env (hd ps) = Inr (c (hd ps)) \<and> encodable (cmdline_json (hd ps) (c (hd ps)))"
    using v ps by simp
  with n cmdline_by_pid_miss_fill [of "hd ps" ?t env "c (hd ps)"]
  show "new_events ?t (snd (cmdline_by_pid env (hd ps) ?t))
          = [\<lparr> event = ''new-pid'', data = cmdline_json (hd ps) (c (hd ps)) \<rparr>]"
    by (simp add: new_events_def)
qed

lemma cached_focused_editor: "cached 100 focused_editor"
  by (simp add: cached_def focused_editor_def)

lemma fill_editor_init: "fst (cmdline_by_pid env_editor 100 init) = Inr [[101, 100]]"
  by (simp add: cmdline_by_pid_def cmdline_by_pid_wrapped_def log_def env_editor_def init_def
        example_encodable)

lemma fill_surrogate_init:
  "fst (cmdline_by_pid env_surrogate 100 init) = Inl UnicodeEncodeError"
  by (simp add: cmdline_by_pid_def cmdline_by_pid_wrapped_def log_def env_surrogate_def
        env_editor_def init_def example_encodable)

lemma full_cache_keys:
  "map fst (cache (resolve_all env_procs [1..256] init)) = rev [1..256]"
proof -
  have "map fst (cache (resolve_all env_procs [1..256] init))
          = take 256 (rev [1..256] @ map fst (cache init))"
    by (rule resolve_all_keys [where c = "\<lambda>q. [[112]]"])
       (simp_all add: env_procs_def example_encodable init_def)
  then show ?thesis by (simp add: init_def)
qed

lemma fill_full_cache:
  "fst (cmdline_by_pid env_procs 257 (resolve_all env_procs [1..256] init)) = Inr [[112]]"
proof -
  have "\<not> cached 257 (resolve_all env_procs [1..256] init)"
    by (simp add: cached_keys full_cache_keys)
  then show ?thesis
    using cmdline_by_pid_miss_fill [of 257 "resolve_all env_procs [1..256] init" env_procs "[[112]]"]
    by (simp add: env_procs_def example_encodable)
qed

theorem C6_new_pid_once_lru_witness:
  "\<not> cached 100 init \<and> process_cmdline env_editor 100 = Inr [[101, 100]]
   \<and> encodable (cmdline_json 100 [[101, 100]])
   \<and> fst (cmdline_by_pid env_editor 100 init) = Inr [[101, 100]]
   \<and> new_events init (snd (cmdline_by_pid env_editor 100 init))
       = [\<lparr> event = ''new-pid'', data = cmdline_json 100 [[101, 100]] \<rparr>]
   \<and> fst (cmdline_by_pid env_surrogate 100 init) = Inl UnicodeEncodeError
   \<and> snd (cmdline_by_pid env_surrogate 100 init) = init
   \<and> cached 100 focused_editor
   \<and> new_events focused_editor (snd (cmdline_by_pid env_editor 100 focused_editor)) = []
   \<and> length (cache init) \<le> 256
   \<and> length (cache (snd (cmdline_by_pid env_editor 100 init))) \<le> 256
   \<and> length (cache (resolve_all env_procs [1..256] init)) = 256
   \<and> \<not> cached 257 (resolve_all env_procs [1..256] init)
   \<and> map fst (cache (snd (cmdline_by_pid env_procs 257 (resolve_all env_procs [1..256] init))))
       = 257 # butlast (map fst (cache (resolve_all env_procs [1..256] init)))
   \<and> distinct [1..257] \<and> length [1..257] = 257
   \<and> process_cmdline env_procs 1 = Inr [[112]]
   \<and> \<not> cached 1 (resolve_all env_procs [1..257] init)
   \<and> cached 2 (resolve_all env_procs [1..257] init)
   \<and> cached 257 (resolve_all env_procs [1..257] init)
   \<and> new_events (resolve_all env_procs [1..257] init)
            (snd (cmdline_by_pid env_procs 1 (resolve_all env_procs [1..257] init)))
         = [\<lparr> event = ''new-pid'', data = cmdline_json 1 [[112]] \<rparr>]"
proof -
  let ?full = "resolve_all env_procs [1..256] init"
  have 1: "\<not> cached 100 init" by (simp add: cached_def init_def)
  have 2: "process_cmdline env_editor 100 = Inr [[101, 100]]" by (simp add: env_editor_def)
  have 3: "length (cache init) \<le> 256" by (simp add: init_def)
  have 4: "distinct [1..257::int]" by simp
  have 5: "length [1..257::int] = 257" by simp
  have 6: "\<forall>q \<in> set [1..257]. process_cmdline env_procs q = Inr [[112]]
             \<and> encodable (cmdline_json q [[112]])"
    by (simp add: env_procs_def example_encodable)
  have 7: "hd [1..257::int] = 1" by (simp add: upto.simps)
  have 8: "tl [1..257::int] = [2..257]" by (simp add: upto.simps)
  have 9: "length (cache ?full) = 256"
    using arg_cong [OF full_cache_keys, of length] by simp
  have 10: "\<not> cached 257 ?full"
    by (simp add: cached_keys full_cache_keys)
  have 11: "process_cmdline env_procs 1 = Inr [[112]]" by (simp add: env_procs_def)
  from 1 2 3 4 5 6 9 10 11 cached_focused_editor fill_editor_init fill_surrogate_init
    fill_full_cache example_encodable(1) [of 100]
    C6_new_pid_once_lru [of 100 init env_editor "[[101, 100]]" UnicodeEncodeError "[]" "\<lambda>q. []"]
    C6_new_pid_once_lru [of 100 init env_surrogate "[[101, 100]]" UnicodeEncodeError "[]" "\<lambda>q. []"]
    C6_new_pid_once_lru [of 100 focused_editor env_editor "[[101, 100]]" UnicodeEncodeError "[]" "\<lambda>q. []"]
    C6_new_pid_once_lru [of 257 ?full env_procs "[[112]]" UnicodeEncodeError "[]" "\<lambda>q. []"]
    C6_new_pid_once_lru [of 1 init env_procs "[[112]]" UnicodeEncodeError "[1..257]" "\<lambda>q. [[112]]"]
  show ?thesis
    by (simp add: 7 8)
qed

end
